theory Spec2Isabelle
  imports Main "HOL-Library.Word"
begin

section \<open>Buffers\<close>

text \<open>
  A Node.js \<open>Buffer\<close> is a sequence of bytes. The operations below are the ones
  \<open>PacketHandler\<close> calls on it, with Node's behaviour out of range written out:
  an indexed read past the end is \<open>undefined\<close>, \<open>readUInt16BE\<close> and
  \<open>readUInt32BE\<close> throw a \<open>RangeError\<close> when the bytes are not all there,
  \<open>slice\<close> and \<open>subarray\<close> clamp their indices (a negative index counts from
  the end), and \<open>copy\<close> throws a \<open>RangeError\<close> on a negative
  \<open>sourceStart\<close> and otherwise overwrites only the bytes it copies.
\<close>

type_synonym byte = "8 word"

type_synonym buffer = "byte list"

text \<open>What can escape a call as a JavaScript exception.\<close>

datatype thrown = RangeError | SecretboxError | NotifyFailed | Unhandled string

definition byte_at :: "buffer \<Rightarrow> nat \<Rightarrow> byte option" where
  "byte_at buf i = (if i < length buf then Some (buf ! i) else None)"

definition clamp_index :: "nat \<Rightarrow> int \<Rightarrow> nat" where
  "clamp_index len i = (if i < 0 then nat (max 0 (int len + i)) else min len (nat i))"

definition buffer_slice :: "buffer \<Rightarrow> int \<Rightarrow> int option \<Rightarrow> buffer" where
  "buffer_slice buf first last_opt =
     (let s = clamp_index (length buf) first;
          e = (case last_opt of None \<Rightarrow> length buf | Some l \<Rightarrow> clamp_index (length buf) l)
      in take (e - s) (drop s buf))"

definition buffer_copy :: "buffer \<Rightarrow> buffer \<Rightarrow> int \<Rightarrow> int \<Rightarrow> int option \<Rightarrow> thrown + buffer" where
  "buffer_copy source target targetStart sourceStart sourceEnd_opt =
     (if targetStart < 0 then Inl RangeError
      else if sourceStart < 0 \<or> int (length source) < sourceStart then Inl RangeError
      else
        (let sourceEnd = (case sourceEnd_opt of None \<Rightarrow> int (length source) | Some e \<Rightarrow> e) in
         if sourceEnd < 0 then Inl RangeError
         else if int (length target) \<le> targetStart \<or> sourceEnd \<le> sourceStart then Inr target
         else
           (let n = min (min (nat (sourceEnd - sourceStart)) (length target - nat targetStart))
                        (length source - nat sourceStart);
                chunk = take n (drop (nat sourceStart) source)
            in Inr (take (nat targetStart) target @ chunk @ drop (nat targetStart + n) target))))"

definition readUInt16BE :: "buffer \<Rightarrow> nat \<Rightarrow> thrown + nat" where
  "readUInt16BE buf off =
     (if off + 2 \<le> length buf
      then Inr (unat (buf ! off) * 256 + unat (buf ! (off + 1)))
      else Inl RangeError)"

definition readUInt32BE :: "buffer \<Rightarrow> nat \<Rightarrow> thrown + int" where
  "readUInt32BE buf off =
     (if off + 4 \<le> length buf
      then Inr (int (unat (buf ! off) * 16777216 + unat (buf ! (off + 1)) * 65536
                     + unat (buf ! (off + 2)) * 256 + unat (buf ! (off + 3))))
      else Inl RangeError)"

section \<open>The data of the packet handler\<close>

text \<open>
  \<open>connection.authentication\<close>: the key and the mode, each possibly undefined.
\<close>

record authentication =
  secret_key :: "buffer option"
  mode :: "string option"

text \<open>An entry of \<open>connection.ssrcMap\<close>.\<close>

record userStat =
  userId :: string
  hasVideo :: bool
  speaking :: nat

text \<open>
  An entry of \<open>streams\<close>: the handle of the \<open>Readable\<close> and the value of the
  source's field \<open>end\<close>.
\<close>

record streamInfo =
  stream :: nat
  end_policy :: string

text \<open>
  A \<open>Timeout\<close> object of \<open>speakingTimeouts\<close>: the delay given to
  \<open>setTimeout\<close>, the clock value at which it is due, whether it is still scheduled,
  and the user id its callback reads from the captured directory entry.
\<close>

record speakingTimeout =
  delay :: nat
  deadline :: nat
  pending :: bool
  cb_user :: string

text \<open>The argument of \<open>connection.onSpeaking\<close>: user id, SSRC and speaking flags.\<close>

datatype notification = Notify string int nat

text \<open>What \<open>parseBuffer\<close> returns: an \<open>Error\<close> object or the payload.\<close>

datatype parsed = Failure string | Packet buffer

text \<open>
  The collaborators whose code is outside the handler are parameters:
  \<open>secretbox.methods.open\<close> (ciphertext, nonce, key), which returns the
  plaintext, returns no plaintext, or throws, as the library behind it decides; the
  constant \<open>SILENCE_FRAME\<close>; the flag \<open>Speaking.FLAGS.SPEAKING\<close>; and
  whether a call of \<open>connection.onSpeaking\<close> throws.
\<close>

record env =
  secretbox_open :: "buffer \<Rightarrow> buffer \<Rightarrow> buffer \<Rightarrow> thrown + buffer option"
  SILENCE_FRAME :: buffer
  SPEAKING :: nat
  onSpeaking_throws :: "notification \<Rightarrow> bool"

text \<open>
  The handler with its connection. \<open>notified\<close> lists the calls of
  \<open>connection.onSpeaking\<close>, \<open>error_events\<close> the \<open>'error'\<close> events emitted,
  \<open>readable\<close> what was pushed to each \<open>Readable\<close> (\<open>None\<close> is the
  end-of-stream \<open>null\<close>) and \<open>ivf\<close> what was pushed to each video joiner.
\<close>

record handler =
  nonce :: buffer
  streams :: "string \<rightharpoonup> streamInfo"
  videoStreams :: "string \<rightharpoonup> nat"
  speakingTimeouts :: "int \<rightharpoonup> speakingTimeout"
  ssrcMap :: "int \<rightharpoonup> userStat"
  auth :: authentication
  error_listener :: bool
  notified :: "notification list"
  error_events :: "string list"
  readable :: "nat \<Rightarrow> buffer option list"
  ivf :: "nat \<Rightarrow> buffer list"
  next_handle :: nat

definition DISCORD_SPEAKING_DELAY :: nat where
  "DISCORD_SPEAKING_DELAY = 250"

section \<open>parseBuffer\<close>

text \<open>
  Lines 60 to 70 of \<open>parseBuffer\<close>: the nonce is chosen by copying into the
  handler's 24-byte scratch buffer, and \<open>end\<close> is set in two of the three modes.
\<close>

definition choose_nonce :: "string option \<Rightarrow> buffer \<Rightarrow> buffer \<Rightarrow> thrown + (buffer \<times> int option)" where
  "choose_nonce m scratch buffer =
     (if m = Some ''xsalsa20_poly1305_lite'' then
        (case buffer_copy buffer scratch 0 (int (length buffer) - 4) None of
           Inl e \<Rightarrow> Inl e
         | Inr n \<Rightarrow> Inr (n, Some (int (length buffer) - 4)))
      else if m = Some ''xsalsa20_poly1305_suffix'' then
        (case buffer_copy buffer scratch 0 (int (length buffer) - 24) None of
           Inl e \<Rightarrow> Inl e
         | Inr n \<Rightarrow> Inr (n, Some (int (length buffer) - 24)))
      else
        (case buffer_copy buffer scratch 0 0 (Some 12) of
           Inl e \<Rightarrow> Inl e
         | Inr n \<Rightarrow> Inr (n, None)))"

text \<open>Lines 78 to 82: the one-byte RTP header extension is cut off.\<close>

definition has_marker :: "buffer \<Rightarrow> bool" where
  "has_marker packet = (byte_at packet 0 = Some 0xBE \<and> byte_at packet 1 = Some 0xDE)"

definition strip_extension :: "buffer \<Rightarrow> thrown + buffer" where
  "strip_extension packet =
     (if has_marker packet then
        (case readUInt16BE packet 2 of
           Inl e \<Rightarrow> Inl e
         | Inr headerExtensionLength \<Rightarrow>
             Inr (buffer_slice packet (4 + 4 * int headerExtensionLength) None))
      else Inr packet)"

definition parseBuffer :: "env \<Rightarrow> buffer \<Rightarrow> handler \<Rightarrow> (thrown + parsed) \<times> handler" where
  "parseBuffer env buffer s =
     (case choose_nonce (mode (auth s)) (nonce s) buffer of
        Inl e \<Rightarrow> (Inl e, s)
      | Inr (n, last_opt) \<Rightarrow>
          (let s1 = s\<lparr>nonce := n\<rparr> in
           case secret_key (auth s) of
             None \<Rightarrow> (Inr (Failure ''secret_key cannot be null or undefined''), s1)
           | Some key \<Rightarrow>
               (case secretbox_open env (buffer_slice buffer 12 last_opt) n key of
                  Inl e \<Rightarrow> (Inl e, s1)
                | Inr None \<Rightarrow> (Inr (Failure ''Failed to decrypt voice packet''), s1)
                | Inr (Some packet) \<Rightarrow>
                    (case strip_extension packet of
                       Inl e \<Rightarrow> (Inl e, s1)
                     | Inr p \<Rightarrow> (Inr (Packet p), s1)))))"

text \<open>
  Applying the stripper to its own result, as a second run over the same packet would.
\<close>

definition strip_twice :: "buffer \<Rightarrow> thrown + buffer" where
  "strip_twice packet =
     (case strip_extension packet of Inl e \<Rightarrow> Inl e | Inr q \<Rightarrow> strip_extension q)"

text \<open>A byte sequence filled up with zero bytes to the 24 bytes of a nonce.\<close>

definition zero_padded :: "buffer \<Rightarrow> buffer" where
  "zero_padded xs = xs @ replicate (24 - length xs) 0"

section \<open>Collaborators and the stream registry\<close>

text \<open>
  Modelled from the spec: \<open>connection.onSpeaking\<close> is defined outside the handler.
  The spec takes it for a notification sink, and the handler's timer callback expects
  that it can throw once the connection is closed. The call is recorded, then it
  returns or throws as the environment says.
\<close>

definition onSpeaking :: "env \<Rightarrow> notification \<Rightarrow> handler \<Rightarrow> (thrown + unit) \<times> handler" where
  "onSpeaking env ev s =
     (let s1 = s\<lparr>notified := notified s @ [ev]\<rparr>
      in if onSpeaking_throws env ev then (Inl NotifyFailed, s1) else (Inr (), s1))"

text \<open>
  \<open>this.emit('error', err)\<close> of Node's \<open>EventEmitter\<close>: the event is emitted, and
  with no listener for \<open>'error'\<close> the error is thrown at the caller.
\<close>

definition emit_error :: "string \<Rightarrow> handler \<Rightarrow> (thrown + unit) \<times> handler" where
  "emit_error err s =
     (let s1 = s\<lparr>error_events := error_events s @ [err]\<rparr>
      in if error_listener s then (Inr (), s1) else (Inl (Unhandled err), s1))"

text \<open>\<open>_stoppedSpeaking(userId)\<close>; \<open>stream.push(null)\<close> is the chunk \<open>None\<close>.\<close>

definition stoppedSpeaking :: "string \<Rightarrow> handler \<Rightarrow> handler" where
  "stoppedSpeaking user s =
     (case streams s user of
        None \<Rightarrow> s
      | Some info \<Rightarrow>
          if end_policy info = ''silence''
          then s\<lparr>streams := (streams s)(user := None),
                 readable := (readable s)(stream info := readable s (stream info) @ [None])\<rparr>
          else s)"

text \<open>
  \<open>makeStream(user, end)\<close>: a new \<open>Readable\<close> is a fresh handle with nothing
  pushed to it. Its \<open>'end'\<close> listener runs later, outside this call.
\<close>

definition makeStream :: "string \<Rightarrow> string \<Rightarrow> handler \<Rightarrow> nat \<times> handler" where
  "makeStream user e s =
     (case streams s user of
        Some info \<Rightarrow> (stream info, s)
      | None \<Rightarrow>
          (let h = next_handle s
           in (h, s\<lparr>streams := (streams s)(user \<mapsto> \<lparr>stream = h, end_policy = e\<rparr>),
                    readable := (readable s)(h := []),
                    next_handle := Suc h\<rparr>)))"

definition makeVideoStream :: "string \<Rightarrow> handler \<Rightarrow> nat \<times> handler" where
  "makeVideoStream user s =
     (case videoStreams s user of
        Some h \<Rightarrow> (h, s)
      | None \<Rightarrow>
          (let h = next_handle s
           in (h, s\<lparr>videoStreams := (videoStreams s)(user \<mapsto> h),
                    ivf := (ivf s)(h := []),
                    next_handle := Suc h\<rparr>)))"

section \<open>push\<close>

text \<open>
  \<open>push\<close> either throws, returns early, or goes on to its next block; the blocks
  below are its lines in order.
\<close>

datatype 'a step = Threw thrown | Returned | Continue 'a

text \<open>Line 95: the directory entry under the SSRC, else the one under the SSRC minus one.\<close>

definition resolve :: "handler \<Rightarrow> int \<Rightarrow> userStat option" where
  "resolve s ssrc = (case ssrcMap s ssrc of Some u \<Rightarrow> Some u | None \<Rightarrow> ssrcMap s (ssrc - 1))"

text \<open>
  Lines 104 to 117: for a user in video the packet is parsed at once, a failure is
  reported only when a stream of the user is registered, and a silence frame ends the
  call. The result carries \<open>opusPacket\<close>, still undefined for a user not in video.
\<close>

definition check_silence ::
  "env \<Rightarrow> buffer \<Rightarrow> userStat \<Rightarrow> streamInfo option \<Rightarrow> nat option \<Rightarrow> handler
     \<Rightarrow> buffer option step \<times> handler" where
  "check_silence env buffer u streamInfo videoStreamInfo s =
     (if hasVideo u then
        (case parseBuffer env buffer s of
           (Inl e, s1) \<Rightarrow> (Threw e, s1)
         | (Inr (Failure err), s1) \<Rightarrow>
             (if streamInfo \<noteq> None \<or> videoStreamInfo \<noteq> None then
                (case emit_error err s1 of
                   (Inl e, s2) \<Rightarrow> (Threw e, s2)
                 | (Inr _, s2) \<Rightarrow> (Returned, s2))
              else (Returned, s1))
         | (Inr (Packet p), s1) \<Rightarrow>
             (if p = SILENCE_FRAME env then (Returned, s1) else (Continue (Some p), s1)))
      else (Continue None, s))"

text \<open>
  Lines 119 to 142: the speaking timeout of the SSRC, only when the SSRC itself is in
  the directory. The entry \<open>u\<close> is then the object stored under the SSRC, so setting
  its \<open>speaking\<close> field changes the directory. \<open>now\<close> is the clock at the call.
\<close>

definition advance_speaking ::
  "env \<Rightarrow> nat \<Rightarrow> int \<Rightarrow> userStat \<Rightarrow> handler \<Rightarrow> (thrown + unit) \<times> handler" where
  "advance_speaking env now ssrc u s =
     (case ssrcMap s ssrc of
        None \<Rightarrow> (Inr (), s)
      | Some _ \<Rightarrow>
          (case speakingTimeouts s ssrc of
             None \<Rightarrow>
               (let u1 = (if speaking u = 0 then u\<lparr>speaking := SPEAKING env\<rparr> else u);
                    s1 = (if speaking u = 0 then s\<lparr>ssrcMap := (ssrcMap s)(ssrc \<mapsto> u1)\<rparr> else s)
                in case onSpeaking env (Notify (userId u1) ssrc (speaking u1)) s1 of
                     (Inl e, s2) \<Rightarrow> (Inl e, s2)
                   | (Inr _, s2) \<Rightarrow>
                       (Inr (),
                        s2\<lparr>speakingTimeouts := (speakingTimeouts s2)(ssrc \<mapsto>
                              \<lparr>delay = DISCORD_SPEAKING_DELAY,
                               deadline = now + DISCORD_SPEAKING_DELAY,
                               pending = True,
                               cb_user = userId u1\<rparr>)\<rparr>))
           | Some t \<Rightarrow>
               (Inr (),
                s\<lparr>speakingTimeouts := (speakingTimeouts s)(ssrc \<mapsto>
                      t\<lparr>deadline := now + delay t, pending := True\<rparr>)\<rparr>)))"

text \<open>
  Lines 146 to 152 and 162 to 168: the packet is parsed unless it was already, and a
  failure is emitted and ends the call.
\<close>

definition ensure_parsed :: "env \<Rightarrow> buffer \<Rightarrow> buffer option \<Rightarrow> handler \<Rightarrow> buffer step \<times> handler" where
  "ensure_parsed env buffer opusPacket s =
     (case opusPacket of
        Some p \<Rightarrow> (Continue p, s)
      | None \<Rightarrow>
          (case parseBuffer env buffer s of
             (Inl e, s1) \<Rightarrow> (Threw e, s1)
           | (Inr (Failure err), s1) \<Rightarrow>
               (case emit_error err s1 of
                  (Inl e, s2) \<Rightarrow> (Threw e, s2)
                | (Inr _, s2) \<Rightarrow> (Returned, s2))
           | (Inr (Packet p), s1) \<Rightarrow> (Continue p, s1)))"

text \<open>
  Lines 144 to 158. \<open>parseBuffer\<close> returns an \<open>Error\<close> or a \<open>Buffer\<close>, never
  \<open>null\<close>, so the branch that destroys the stream is not taken.
\<close>

definition deliver_audio ::
  "env \<Rightarrow> buffer \<Rightarrow> streamInfo option \<Rightarrow> buffer option \<Rightarrow> handler \<Rightarrow> buffer option step \<times> handler" where
  "deliver_audio env buffer streamInfo opusPacket s =
     (case streamInfo of
        None \<Rightarrow> (Continue opusPacket, s)
      | Some info \<Rightarrow>
          (case ensure_parsed env buffer opusPacket s of
             (Threw e, s1) \<Rightarrow> (Threw e, s1)
           | (Returned, s1) \<Rightarrow> (Returned, s1)
           | (Continue p, s1) \<Rightarrow>
               (Continue (Some p),
                s1\<lparr>readable := (readable s1)(stream info := readable s1 (stream info) @ [Some p])\<rparr>)))"

text \<open>Lines 160 to 170.\<close>

definition deliver_video ::
  "env \<Rightarrow> buffer \<Rightarrow> nat option \<Rightarrow> buffer option \<Rightarrow> handler \<Rightarrow> (thrown + unit) \<times> handler" where
  "deliver_video env buffer videoStreamInfo opusPacket s =
     (case videoStreamInfo of
        None \<Rightarrow> (Inr (), s)
      | Some h \<Rightarrow>
          (case ensure_parsed env buffer opusPacket s of
             (Threw e, s1) \<Rightarrow> (Inl e, s1)
           | (Returned, s1) \<Rightarrow> (Inr (), s1)
           | (Continue p, s1) \<Rightarrow> (Inr (), s1\<lparr>ivf := (ivf s1)(h := ivf s1 h @ [p])\<rparr>)))"

text \<open>Lines 144 to 170: the audio stream, then the video stream.\<close>

definition deliver ::
  "env \<Rightarrow> buffer \<Rightarrow> streamInfo option \<Rightarrow> nat option \<Rightarrow> buffer option \<Rightarrow> handler
     \<Rightarrow> (thrown + unit) \<times> handler" where
  "deliver env buffer streamInfo videoStreamInfo opusPacket s =
     (case deliver_audio env buffer streamInfo opusPacket s of
        (Threw e, s3) \<Rightarrow> (Inl e, s3)
      | (Returned, s3) \<Rightarrow> (Inr (), s3)
      | (Continue opusPacket1, s3) \<Rightarrow>
          deliver_video env buffer videoStreamInfo opusPacket1 s3)"

definition push :: "env \<Rightarrow> nat \<Rightarrow> buffer \<Rightarrow> handler \<Rightarrow> (thrown + unit) \<times> handler" where
  "push env now buffer s =
     (case readUInt32BE buffer 8 of
        Inl e \<Rightarrow> (Inl e, s)
      | Inr ssrc \<Rightarrow>
          (case resolve s ssrc of
             None \<Rightarrow> (Inr (), s)
           | Some u \<Rightarrow>
               (let streamInfo = streams s (userId u);
                    videoStreamInfo = videoStreams s (userId u)
                in case check_silence env buffer u streamInfo videoStreamInfo s of
                     (Threw e, s1) \<Rightarrow> (Inl e, s1)
                   | (Returned, s1) \<Rightarrow> (Inr (), s1)
                   | (Continue opusPacket, s1) \<Rightarrow>
                       (case advance_speaking env now ssrc u s1 of
                          (Inl e, s2) \<Rightarrow> (Inl e, s2)
                        | (Inr _, s2) \<Rightarrow>
                            deliver env buffer streamInfo videoStreamInfo opusPacket s2))))"

text \<open>
  Lines 129 to 137, the callback of the timeout of an SSRC. The timeout in the map under
  the SSRC is the one that runs: an entry is set only where there was none and is
  deleted only here. Having run, it is no longer scheduled. A throw of
  \<open>onSpeaking\<close> leaves the \<open>try\<close> block before the entry is deleted and is caught.
\<close>

definition timeout_callback :: "env \<Rightarrow> int \<Rightarrow> handler \<Rightarrow> (thrown + unit) \<times> handler" where
  "timeout_callback env ssrc s =
     (case speakingTimeouts s ssrc of
        None \<Rightarrow> (Inr (), s)
      | Some t \<Rightarrow>
          (let s0 = s\<lparr>speakingTimeouts := (speakingTimeouts s)(ssrc \<mapsto> t\<lparr>pending := False\<rparr>)\<rparr>
           in case onSpeaking env (Notify (cb_user t) ssrc 0) s0 of
                (Inl e, s1) \<Rightarrow> (Inr (), s1)
              | (Inr _, s1) \<Rightarrow>
                  (Inr (), s1\<lparr>speakingTimeouts := (speakingTimeouts s1)(ssrc := None)\<rparr>)))"

section \<open>Notions used in the statements\<close>

text \<open>
  The speaking-start notification of lines 125 to 128: the flags of the entry, or the
  speaking flag when the entry has none.
\<close>

definition start_event :: "env \<Rightarrow> int \<Rightarrow> userStat \<Rightarrow> notification" where
  "start_event env ssrc u =
     Notify (userId u) ssrc (if speaking u = 0 then SPEAKING env else speaking u)"

text \<open>
  A packet gets past lines 104 to 117 when the user is not in video, or when it parses
  to a payload other than the silence frame.
\<close>

definition passes_silence_check :: "env \<Rightarrow> buffer \<Rightarrow> handler \<Rightarrow> userStat \<Rightarrow> bool" where
  "passes_silence_check env buffer s u =
     (if hasVideo u then
        (case fst (parseBuffer env buffer s) of
           Inr (Packet p) \<Rightarrow> p \<noteq> SILENCE_FRAME env
         | _ \<Rightarrow> False)
      else True)"

text \<open>The handler after a payload was pushed to the registered streams of a user.\<close>

definition delivered :: "streamInfo option \<Rightarrow> nat option \<Rightarrow> buffer \<Rightarrow> handler \<Rightarrow> handler" where
  "delivered streamInfo videoStreamInfo p s =
     s\<lparr>readable :=
         (case streamInfo of
            None \<Rightarrow> readable s
          | Some info \<Rightarrow> (readable s)(stream info := readable s (stream info) @ [Some p])),
       ivf :=
         (case videoStreamInfo of
            None \<Rightarrow> ivf s
          | Some h \<Rightarrow> (ivf s)(h := ivf s h @ [p]))\<rparr>"

section \<open>A session to run the handler on\<close>

text \<open>
  A cipher that opens every box to its ciphertext, the Opus silence frame, the speaking
  flag 1 and notifications that are delivered; a connection whose notifications throw; a
  cipher that opens no box and returns nothing; a handler as constructed, with a key, a
  listener for errors, and one user under SSRC 4 whose audio stream 0 is registered.
\<close>

definition plain_env :: env where
  "plain_env = \<lparr>secretbox_open = (\<lambda>c n k. Inr (Some c)), SILENCE_FRAME = [0xF8, 0xFF, 0xFE],
     SPEAKING = 1, onSpeaking_throws = (\<lambda>ev. False)\<rparr>"

definition closed_env :: env where
  "closed_env = plain_env\<lparr>onSpeaking_throws := (\<lambda>ev. True)\<rparr>"

definition sealed_env :: env where
  "sealed_env = plain_env\<lparr>secretbox_open := (\<lambda>c n k. Inr None)\<rparr>"

text \<open>A cipher whose \<open>open\<close> throws on every box.\<close>

definition throwing_env :: env where
  "throwing_env = plain_env\<lparr>secretbox_open := (\<lambda>c n k. Inl SecretboxError)\<rparr>"

definition alice :: userStat where
  "alice = \<lparr>userId = ''alice'', hasVideo = False, speaking = 0\<rparr>"

definition session :: handler where
  "session = \<lparr>nonce = replicate 24 0,
     streams = [''alice'' \<mapsto> \<lparr>stream = 0, end_policy = ''silence''\<rparr>],
     videoStreams = Map.empty,
     speakingTimeouts = Map.empty,
     ssrcMap = [4 \<mapsto> alice],
     auth = \<lparr>secret_key = Some [], mode = None\<rparr>,
     error_listener = True,
     notified = [],
     error_events = [],
     readable = (\<lambda>h. []),
     ivf = (\<lambda>h. []),
     next_handle = 1\<rparr>"

text \<open>The same session while the user under SSRC 4 is speaking, the timeout due at 1250.\<close>

definition speaking_session :: handler where
  "speaking_session = session\<lparr>speakingTimeouts :=
     [4 \<mapsto> \<lparr>delay = 250, deadline = 1250, pending = True, cb_user = ''alice''\<rparr>]\<rparr>"

text \<open>The same session with the user in video and a video stream 7 registered as well.\<close>

definition video_session :: handler where
  "video_session = session\<lparr>videoStreams := [''alice'' \<mapsto> 7],
     ssrcMap := [4 \<mapsto> alice\<lparr>hasVideo := True\<rparr>]\<rparr>"

text \<open>The same session with no stream registered.\<close>

definition unattended_session :: handler where
  "unattended_session = session\<lparr>streams := Map.empty\<rparr>"

text \<open>A datagram: twelve header bytes with the SSRC in the last of them, then the payload.\<close>

definition datagram :: "byte \<Rightarrow> buffer \<Rightarrow> buffer" where
  "datagram ssrc payload = [0x80, 0x78, 0, 1, 0, 0, 0, 2, 0, 0, 0, ssrc] @ payload"

section \<open>Buffer facts\<close>

lemma buffer_slice_from: "0 \<le> k \<Longrightarrow> buffer_slice buf k None = drop (nat k) buf"
  by (simp add: buffer_slice_def clamp_index_def min_def)

lemma buffer_slice_upto:
  "k \<le> length buf \<Longrightarrow>
   buffer_slice buf 12 (Some (int (length buf) - int k)) = drop 12 (take (length buf - k) buf)"
  by (simp add: buffer_slice_def clamp_index_def min_def drop_take nat_diff_distrib')

lemma copy_tail:
  assumes "k \<le> length b" "k \<le> length scratch" "0 < k"
  shows "buffer_copy b scratch 0 (int (length b) - int k) None
           = Inr (drop (length b - k) b @ drop k scratch)"
  using assms by (auto simp add: buffer_copy_def Let_def min_def nat_diff_distrib')

lemma copy_head:
  assumes "12 \<le> length scratch"
  shows "buffer_copy b scratch 0 0 (Some 12) = Inr (take 12 b @ drop (min 12 (length b)) scratch)"
  using assms by (auto simp add: buffer_copy_def Let_def min_def)

lemma drop_changes: "0 < n \<Longrightarrow> xs \<noteq> [] \<Longrightarrow> drop n xs \<noteq> xs"
proof
  assume n: "0 < n" and xs: "xs \<noteq> []" and eq: "drop n xs = xs"
  from eq have "length (drop n xs) = length xs" by simp
  then have "length xs - n = length xs" by simp
  moreover from xs have "0 < length xs" by simp
  ultimately show False using n by arith
qed

section \<open>The header extension stripper\<close>

lemma strip_extension_no_marker: "\<not> has_marker p \<Longrightarrow> strip_extension p = Inr p"
  by (simp add: strip_extension_def)

lemma strip_extension_marker:
  assumes "has_marker p" and "4 \<le> length p"
  shows "strip_extension p = Inr (drop (4 + 4 * (unat (p ! 2) * 256 + unat (p ! 3))) p)"
proof -
  have "nat (4 + 4 * int (unat (p ! 2) * 256 + unat (p ! 3)))
          = 4 + 4 * (unat (p ! 2) * 256 + unat (p ! 3))"
    by (simp add: nat_add_distrib nat_mult_distrib)
  with assms show ?thesis
    by (simp add: strip_extension_def readUInt16BE_def buffer_slice_from
        del: of_nat_add of_nat_mult)
qed

lemma strip_extension_marker_changes:
  assumes "has_marker q"
  shows "strip_extension q \<noteq> Inr q"
proof (cases "4 \<le> length q")
  case True
  from True have "q \<noteq> []" by auto
  then have "drop (4 + 4 * (unat (q ! 2) * 256 + unat (q ! 3))) q \<noteq> q"
    by (rule drop_changes [rotated]) simp
  with assms True strip_extension_marker [of q] show ?thesis by simp
next
  case False
  with assms show ?thesis by (simp add: strip_extension_def readUInt16BE_def)
qed

text \<open>
  C7, as the code has it. A plaintext that starts with 0xBE 0xDE and has the four bytes
  of the extension header loses 4 + 4 * length bytes, the length being the big-endian
  16-bit word at offset 2; a plaintext without the marker is returned as it is. A second
  application changes nothing exactly when the stripped payload does not itself start
  with the marker.
\<close>

theorem strip_extension_once:
  "(has_marker p \<and> 4 \<le> length p \<longrightarrow>
      strip_extension p = Inr (drop (4 + 4 * (unat (p ! 2) * 256 + unat (p ! 3))) p))
   \<and> (\<not> has_marker p \<longrightarrow> strip_extension p = Inr p)
   \<and> (strip_extension p = Inr q \<longrightarrow>
        (strip_twice p = strip_extension p) = (\<not> has_marker q))"
proof (intro conjI impI)
  assume "has_marker p \<and> 4 \<le> length p"
  then show "strip_extension p = Inr (drop (4 + 4 * (unat (p ! 2) * 256 + unat (p ! 3))) p)"
    by (simp add: strip_extension_marker)
next
  assume "\<not> has_marker p"
  then show "strip_extension p = Inr p" by (rule strip_extension_no_marker)
next
  assume q: "strip_extension p = Inr q"
  show "(strip_twice p = strip_extension p) = (\<not> has_marker q)"
  proof (cases "has_marker q")
    case True
    with q strip_extension_marker_changes [of q] show ?thesis by (simp add: strip_twice_def)
  next
    case False
    with q strip_extension_no_marker [of q] show ?thesis by (simp add: strip_twice_def)
  qed
qed

theorem strip_extension_once_witness:
  "has_marker [0xBE, 0xDE, 0, 1, 9, 9, 9, 9, 1, 2]
   \<and> 4 \<le> length [0xBE, 0xDE, 0, 1, 9, 9, 9, 9, 1, 2 :: byte]
   \<and> strip_extension [0xBE, 0xDE, 0, 1, 9, 9, 9, 9, 1, 2] = Inr [1, 2]
   \<and> \<not> has_marker [1, 2]
   \<and> strip_twice [0xBE, 0xDE, 0, 1, 9, 9, 9, 9, 1, 2]
       = strip_extension [0xBE, 0xDE, 0, 1, 9, 9, 9, 9, 1, 2]
   \<and> strip_extension [1, 2] = Inr [1, 2]"
proof -
  have m: "has_marker [0xBE, 0xDE, 0, 1, 9, 9, 9, 9, 1, 2]" and n: "\<not> has_marker [1, 2]"
    by (simp_all add: has_marker_def byte_at_def)
  from m strip_extension_once [of "[0xBE, 0xDE, 0, 1, 9, 9, 9, 9, 1, 2]" "[1, 2]"]
  have s: "strip_extension [0xBE, 0xDE, 0, 1, 9, 9, 9, 9, 1, 2] = Inr [1, 2]" by simp
  with n strip_extension_once [of "[0xBE, 0xDE, 0, 1, 9, 9, 9, 9, 1, 2]" "[1, 2]"]
  have t: "strip_twice [0xBE, 0xDE, 0, 1, 9, 9, 9, 9, 1, 2]
             = strip_extension [0xBE, 0xDE, 0, 1, 9, 9, 9, 9, 1, 2]" by simp
  from n strip_extension_once [of "[1, 2]" "[1, 2]"]
  have u: "strip_extension [1, 2] = Inr [1, 2]" by simp
  from m n s t u show ?thesis by simp
qed

text \<open>
  Stripping is not idempotent: the payload left after an empty extension header starts
  with the marker again here, and a second application cuts into it.
\<close>

theorem strip_twice_counterexample:
  "strip_extension [0xBE, 0xDE, 0, 0, 0xBE, 0xDE, 0, 0, 1, 2] = Inr [0xBE, 0xDE, 0, 0, 1, 2]
   \<and> strip_twice [0xBE, 0xDE, 0, 0, 0xBE, 0xDE, 0, 0, 1, 2] = Inr [1, 2]
   \<and> strip_twice [0xBE, 0xDE, 0, 0, 0xBE, 0xDE, 0, 0, 1, 2]
       \<noteq> strip_extension [0xBE, 0xDE, 0, 0, 0xBE, 0xDE, 0, 0, 1, 2]"
  by (simp add: strip_twice_def strip_extension_def has_marker_def byte_at_def readUInt16BE_def
      buffer_slice_def clamp_index_def)

section \<open>The nonce\<close>

text \<open>
  C5, as the code has it. The scratch buffer has 24 bytes and keeps them. In lite mode, on
  a datagram of at least 4 bytes, the nonce is the datagram's last 4 bytes, zero-padded
  when bytes 4 to 23 of the scratch buffer are zero, and the ciphertext is bytes 12 to
  the length minus 4. In suffix mode, on a datagram of at least 24 bytes, the nonce is
  the last 24 bytes and the ciphertext is bytes 12 to the length minus 24. In any other
  mode the nonce is the first 12 bytes, zero-padded when the scratch bytes after them are
  zero, and the ciphertext is everything from byte 12 on. Whenever a nonce is produced
  it has 24 bytes.
\<close>

theorem choose_nonce_modes:
  assumes "length scratch = 24"
  shows "(m = Some ''xsalsa20_poly1305_lite'' \<and> 4 \<le> length b
            \<and> drop 4 scratch = replicate 20 0 \<longrightarrow>
            choose_nonce m scratch b
              = Inr (zero_padded (drop (length b - 4) b), Some (int (length b) - 4))
          \<and> buffer_slice b 12 (Some (int (length b) - 4)) = drop 12 (take (length b - 4) b))
       \<and> (m = Some ''xsalsa20_poly1305_suffix'' \<and> 24 \<le> length b \<longrightarrow>
            choose_nonce m scratch b = Inr (drop (length b - 24) b, Some (int (length b) - 24))
          \<and> buffer_slice b 12 (Some (int (length b) - 24)) = drop 12 (take (length b - 24) b))
       \<and> (m \<noteq> Some ''xsalsa20_poly1305_lite'' \<and> m \<noteq> Some ''xsalsa20_poly1305_suffix''
            \<and> drop (min 12 (length b)) scratch = replicate (24 - min 12 (length b)) 0 \<longrightarrow>
            choose_nonce m scratch b = Inr (zero_padded (take 12 b), None)
          \<and> buffer_slice b 12 None = drop 12 b)
       \<and> (\<forall>n e. choose_nonce m scratch b = Inr (n, e) \<longrightarrow> length n = 24)"
proof (intro conjI impI allI)
  assume h: "m = Some ''xsalsa20_poly1305_lite'' \<and> 4 \<le> length b
    \<and> drop 4 scratch = replicate 20 0"
  with assms copy_tail [of 4 b scratch]
  show "choose_nonce m scratch b
          = Inr (zero_padded (drop (length b - 4) b), Some (int (length b) - 4))"
    by (simp add: choose_nonce_def zero_padded_def)
  from h buffer_slice_upto [of 4 b]
  show "buffer_slice b 12 (Some (int (length b) - 4)) = drop 12 (take (length b - 4) b)"
    by simp
next
  assume h: "m = Some ''xsalsa20_poly1305_suffix'' \<and> 24 \<le> length b"
  with assms copy_tail [of 24 b scratch]
  show "choose_nonce m scratch b = Inr (drop (length b - 24) b, Some (int (length b) - 24))"
    by (simp add: choose_nonce_def)
  from h buffer_slice_upto [of 24 b]
  show "buffer_slice b 12 (Some (int (length b) - 24)) = drop 12 (take (length b - 24) b)"
    by simp
next
  assume h: "m \<noteq> Some ''xsalsa20_poly1305_lite'' \<and> m \<noteq> Some ''xsalsa20_poly1305_suffix''
    \<and> drop (min 12 (length b)) scratch = replicate (24 - min 12 (length b)) 0"
  with assms copy_head [of scratch b]
  show "choose_nonce m scratch b = Inr (zero_padded (take 12 b), None)"
    by (simp add: choose_nonce_def zero_padded_def)
  show "buffer_slice b 12 None = drop 12 b"
    using buffer_slice_from [of 12 b] by simp
next
  fix n e
  assume "choose_nonce m scratch b = Inr (n, e)"
  with assms show "length n = 24"
    by (auto simp: choose_nonce_def buffer_copy_def Let_def min_def split: if_splits)
qed

theorem choose_nonce_modes_witness:
  "length (replicate 24 (0 :: byte)) = 24
   \<and> choose_nonce (Some ''xsalsa20_poly1305_lite'') (replicate 24 0) (datagram 4 [1, 2, 3, 4, 5, 6, 7, 8])
       = Inr ([5, 6, 7, 8] @ replicate 20 0, Some 16)
   \<and> buffer_slice (datagram 4 [1, 2, 3, 4, 5, 6, 7, 8]) 12 (Some 16) = [1, 2, 3, 4]
   \<and> choose_nonce (Some ''xsalsa20_poly1305_suffix'') (replicate 24 0) (datagram 4 ([1, 2] @ replicate 24 9))
       = Inr (replicate 24 9, Some 14)
   \<and> buffer_slice (datagram 4 ([1, 2] @ replicate 24 9)) 12 (Some 14) = [1, 2]
   \<and> choose_nonce None (replicate 24 0) (datagram 4 [1, 2, 3])
       = Inr ([0x80, 0x78, 0, 1, 0, 0, 0, 2, 0, 0, 0, 4] @ replicate 12 0, None)
   \<and> buffer_slice (datagram 4 [1, 2, 3]) 12 None = [1, 2, 3]"
proof -
  have len: "length (replicate 24 (0 :: byte)) = 24" by simp
  have lite: "choose_nonce (Some ''xsalsa20_poly1305_lite'') (replicate 24 0)
                (datagram 4 [1, 2, 3, 4, 5, 6, 7, 8]) = Inr ([5, 6, 7, 8] @ replicate 20 0, Some 16)
     \<and> buffer_slice (datagram 4 [1, 2, 3, 4, 5, 6, 7, 8]) 12 (Some 16) = [1, 2, 3, 4]"
    using choose_nonce_modes [OF len, of "Some ''xsalsa20_poly1305_lite''"
        "datagram 4 [1, 2, 3, 4, 5, 6, 7, 8]"]
    by (simp add: datagram_def zero_padded_def)
  have suffix: "choose_nonce (Some ''xsalsa20_poly1305_suffix'') (replicate 24 0)
                (datagram 4 ([1, 2] @ replicate 24 9)) = Inr (replicate 24 9, Some 14)
     \<and> buffer_slice (datagram 4 ([1, 2] @ replicate 24 9)) 12 (Some 14) = [1, 2]"
    using choose_nonce_modes [OF len, of "Some ''xsalsa20_poly1305_suffix''"
        "datagram 4 ([1, 2] @ replicate 24 9)"]
    by (simp add: datagram_def)
  have normal: "choose_nonce None (replicate 24 0) (datagram 4 [1, 2, 3])
       = Inr ([0x80, 0x78, 0, 1, 0, 0, 0, 2, 0, 0, 0, 4] @ replicate 12 0, None)
     \<and> buffer_slice (datagram 4 [1, 2, 3]) 12 None = [1, 2, 3]"
    using choose_nonce_modes [OF len, of None "datagram 4 [1, 2, 3]"]
    by (simp add: datagram_def zero_padded_def)
  from len lite suffix normal show ?thesis by simp
qed

text \<open>
  The claim fails on a datagram too short for its mode, where the copy throws and there
  is no nonce, and on a scratch buffer that a packet of another mode has filled: after a
  suffix-mode packet of sevens, the nonce of a lite-mode packet is padded with sevens.
\<close>

theorem choose_nonce_counterexample:
  "choose_nonce (Some ''xsalsa20_poly1305_suffix'') (replicate 24 0) (replicate 20 1)
     = Inl RangeError
   \<and> choose_nonce (Some ''xsalsa20_poly1305_suffix'') (replicate 24 0) (replicate 24 7)
       = Inr (replicate 24 7, Some 0)
   \<and> choose_nonce (Some ''xsalsa20_poly1305_lite'') (replicate 24 7) (replicate 16 1)
       = Inr (replicate 4 1 @ replicate 20 7, Some 12)"
  by (simp add: choose_nonce_def buffer_copy_def)

section \<open>The blocks of push\<close>

lemma parse_only_nonce:
  "snd (parseBuffer env b s) = s\<lparr>nonce := nonce (snd (parseBuffer env b s))\<rparr>"
  by (simp add: parseBuffer_def Let_def split: sum.splits option.splits prod.splits)

lemma parse_depends:
  assumes "nonce s' = nonce s" and "auth s' = auth s"
  shows "parseBuffer env b s'
           = (fst (parseBuffer env b s), s'\<lparr>nonce := nonce (snd (parseBuffer env b s))\<rparr>)"
proof -
  have "s'\<lparr>nonce := nonce s\<rparr> = s'" using assms(1) by (cases s') simp
  then show ?thesis
    by (simp add: parseBuffer_def assms Let_def split: sum.splits option.splits prod.splits)
qed




lemma advance_frame:
  assumes "advance_speaking env now ssrc u s = (r, s')"
  shows "nonce s' = nonce s \<and> auth s' = auth s \<and> streams s' = streams s
     \<and> videoStreams s' = videoStreams s \<and> readable s' = readable s \<and> ivf s' = ivf s
     \<and> error_events s' = error_events s \<and> error_listener s' = error_listener s
     \<and> next_handle s' = next_handle s"
  using assms
  by (auto simp: advance_speaking_def onSpeaking_def Let_def split: option.splits if_splits)

lemma deliver_parsed:
  "deliver env b si vi (Some p) s = (Inr (), delivered si vi p s)"
  by (simp add: deliver_def deliver_audio_def deliver_video_def ensure_parsed_def delivered_def
      split: option.splits)

lemma deliver_unparsed:
  "deliver env b si vi None s
   = (if si = None \<and> vi = None then (Inr (), s)
      else case parseBuffer env b s of
             (Inl e, s1) \<Rightarrow> (Inl e, s1)
           | (Inr (Failure err), s1) \<Rightarrow> emit_error err s1
           | (Inr (Packet p), s1) \<Rightarrow> (Inr (), delivered si vi p s1))"
  by (auto simp add: deliver_def deliver_audio_def deliver_video_def ensure_parsed_def delivered_def
      emit_error_def Let_def
      split: option.splits prod.splits sum.splits parsed.splits step.splits)

lemma advance_nonce:
  "advance_speaking env now ssrc u (s\<lparr>nonce := n\<rparr>)
     = (case advance_speaking env now ssrc u s of (r, s2) \<Rightarrow> (r, s2\<lparr>nonce := n\<rparr>))"
  by (simp add: advance_speaking_def onSpeaking_def Let_def split: option.splits)

lemma push_no_video:
  assumes "readUInt32BE b 8 = Inr ssrc" and "resolve s ssrc = Some u" and "\<not> hasVideo u"
  shows "push env now b s =
     (case advance_speaking env now ssrc u s of
        (Inl e, s2) \<Rightarrow> (Inl e, s2)
      | (Inr _, s2) \<Rightarrow>
          (if streams s (userId u) = None \<and> videoStreams s (userId u) = None then (Inr (), s2)
           else case parseBuffer env b s2 of
                  (Inl e, s1) \<Rightarrow> (Inl e, s1)
                | (Inr (Failure err), s1) \<Rightarrow> emit_error err s1
                | (Inr (Packet p), s1) \<Rightarrow>
                    (Inr (), delivered (streams s (userId u)) (videoStreams s (userId u)) p s1)))"
  using assms
  by (simp add: push_def check_silence_def Let_def deliver_unparsed split: prod.splits sum.splits)

lemma push_video:
  assumes "readUInt32BE b 8 = Inr ssrc" and "resolve s ssrc = Some u" and "hasVideo u"
  shows "push env now b s =
     (case parseBuffer env b s of
        (Inl e, s1) \<Rightarrow> (Inl e, s1)
      | (Inr (Failure err), s1) \<Rightarrow>
          (if streams s (userId u) \<noteq> None \<or> videoStreams s (userId u) \<noteq> None
           then emit_error err s1 else (Inr (), s1))
      | (Inr (Packet p), s1) \<Rightarrow>
          (if p = SILENCE_FRAME env then (Inr (), s1)
           else case advance_speaking env now ssrc u s1 of
                  (Inl e, s2) \<Rightarrow> (Inl e, s2)
                | (Inr _, s2) \<Rightarrow>
                    (Inr (), delivered (streams s (userId u)) (videoStreams s (userId u)) p s2)))"
  using assms
  by (auto simp add: push_def check_silence_def Let_def deliver_parsed emit_error_def
      split: prod.splits sum.splits parsed.splits)

lemma parse_form: "\<exists>r n. parseBuffer env b s = (r, s\<lparr>nonce := n\<rparr>)"
proof -
  have "parseBuffer env b s = (fst (parseBuffer env b s), snd (parseBuffer env b s))" by simp
  with parse_only_nonce [of env b s] show ?thesis by metis
qed




section \<open>Facts of the example session\<close>


lemma session_facts:
  "readUInt32BE (datagram 4 p) 8 = Inr 4"
  "readUInt32BE (datagram 5 p) 8 = Inr 5"
  "ssrcMap session 4 = Some alice"
  "ssrcMap session 5 = None"
  "ssrcMap speaking_session 4 = Some alice"
  "passes_silence_check env b s alice"
  "start_event plain_env 4 alice = Notify ''alice'' 4 1"
  "\<not> onSpeaking_throws plain_env ev"
  by (simp_all add: readUInt32BE_def datagram_def session_def speaking_session_def
      passes_silence_check_def alice_def start_event_def plain_env_def)

lemmas run_push = push_def datagram_def session_def plain_env_def alice_def readUInt32BE_def
  resolve_def check_silence_def advance_speaking_def onSpeaking_def deliver_def deliver_audio_def
  deliver_video_def ensure_parsed_def emit_error_def parseBuffer_def choose_nonce_def
  buffer_copy_def buffer_slice_def clamp_index_def strip_extension_def has_marker_def byte_at_def
  readUInt16BE_def DISCORD_SPEAKING_DELAY_def

section \<open>The stream registry\<close>

text \<open>
  C10. When the audio stream of a user exists, \<open>makeStream\<close> returns its handle and
  changes nothing, whatever end policy it is given: the stored policy stays the one that
  decides whether \<open>_stoppedSpeaking\<close> ends the stream. In particular, after a first
  call that created the stream with policy \<open>e1\<close>, a second call with \<open>e2\<close> returns
  the first handle, the policy stored is \<open>e1\<close>, and \<open>_stoppedSpeaking\<close> removes
  the stream exactly when \<open>e1\<close> is \<open>'silence'\<close>.
\<close>

theorem makeStream_existing:
  "(streams s user = Some info \<longrightarrow>
      makeStream user e2 s = (stream info, s)
      \<and> stoppedSpeaking user (snd (makeStream user e2 s))
          = (if end_policy info = ''silence''
             then s\<lparr>streams := (streams s)(user := None),
                    readable := (readable s)(stream info := readable s (stream info) @ [None])\<rparr>
             else s))
   \<and> (streams s user = None \<longrightarrow>
        (case makeStream user e1 s of
           (h1, s1) \<Rightarrow>
             makeStream user e2 s1 = (h1, s1)
             \<and> streams s1 user = Some \<lparr>stream = h1, end_policy = e1\<rparr>
             \<and> (streams (stoppedSpeaking user (snd (makeStream user e2 s1))) user = None)
                 = (e1 = ''silence'')))"
  by (simp add: makeStream_def stoppedSpeaking_def Let_def)

theorem makeStream_existing_witness:
  "streams session ''alice'' = Some \<lparr>stream = 0, end_policy = ''silence''\<rparr>
   \<and> makeStream ''alice'' ''manual'' session = (0, session)
   \<and> streams (stoppedSpeaking ''alice'' (snd (makeStream ''alice'' ''manual'' session))) ''alice'' = None
   \<and> streams session ''bob'' = None
   \<and> fst (makeStream ''bob'' ''silence'' (snd (makeStream ''bob'' ''manual'' session))) = 1
   \<and> streams (snd (makeStream ''bob'' ''silence'' (snd (makeStream ''bob'' ''manual'' session)))) ''bob''
       = Some \<lparr>stream = 1, end_policy = ''manual''\<rparr>"
proof -
  have a: "streams session ''alice'' = Some \<lparr>stream = 0, end_policy = ''silence''\<rparr>"
    and b: "streams session ''bob'' = None"
    by (simp_all add: session_def)
  note alice = makeStream_existing [of session "''alice''"
      "\<lparr>stream = 0, end_policy = ''silence''\<rparr>" "''manual''", THEN conjunct1, THEN mp, OF a]
  from alice have a1: "makeStream ''alice'' ''manual'' session = (0, session)"
    by simp
  from alice [THEN conjunct2] have a2: "streams (stoppedSpeaking ''alice''
      (snd (makeStream ''alice'' ''manual'' session))) ''alice'' = None"
    by simp
  have c: "makeStream ''bob'' ''manual'' session
      = (1, session\<lparr>streams := (streams session)(''bob'' \<mapsto> \<lparr>stream = 1, end_policy = ''manual''\<rparr>),
                    readable := (readable session)(1 := []), next_handle := 2\<rparr>)"
    by (simp add: makeStream_def session_def)
  from b makeStream_existing [of session "''bob''" _ "''silence''" "''manual''"]
  have b1: "fst (makeStream ''bob'' ''silence'' (snd (makeStream ''bob'' ''manual'' session))) = 1"
    and b2: "streams (snd (makeStream ''bob'' ''silence'' (snd (makeStream ''bob'' ''manual'' session)))) ''bob''
       = Some \<lparr>stream = 1, end_policy = ''manual''\<rparr>"
    by (simp_all add: c)
  from a a1 a2 b b1 b2 show ?thesis by simp
qed

section \<open>The speaking timeouts\<close>






section \<open>The timeout callback\<close>

lemma timeout_callback_returns: "fst (timeout_callback env ssrc s) = Inr ()"
  by (simp add: timeout_callback_def onSpeaking_def Let_def split: option.splits)

text \<open>
  C3, as the code has it. When the timeout runs and the speaking-stop notification
  throws, the callback still returns normally, the call having been made once; the
  entry of the SSRC is not deleted: it stays in the map, no longer scheduled.
\<close>

theorem timeout_callback_notify_fails:
  assumes "speakingTimeouts s ssrc = Some t"
    and "onSpeaking_throws env (Notify (cb_user t) ssrc 0)"
  shows "timeout_callback env ssrc s
           = (Inr (), s\<lparr>speakingTimeouts := (speakingTimeouts s)(ssrc \<mapsto> t\<lparr>pending := False\<rparr>),
                        notified := notified s @ [Notify (cb_user t) ssrc 0]\<rparr>)"
  using assms by (simp add: timeout_callback_def onSpeaking_def Let_def)

theorem timeout_callback_notify_fails_witness:
  "speakingTimeouts speaking_session 4
     = Some \<lparr>delay = 250, deadline = 1250, pending = True, cb_user = ''alice''\<rparr>
   \<and> onSpeaking_throws closed_env (Notify ''alice'' 4 0)
   \<and> fst (timeout_callback closed_env 4 speaking_session) = Inr ()
   \<and> speakingTimeouts (snd (timeout_callback closed_env 4 speaking_session)) 4
       = Some \<lparr>delay = 250, deadline = 1250, pending = False, cb_user = ''alice''\<rparr>
   \<and> notified (snd (timeout_callback closed_env 4 speaking_session)) = [Notify ''alice'' 4 0]"
proof -
  have t: "speakingTimeouts speaking_session 4
     = Some \<lparr>delay = 250, deadline = 1250, pending = True, cb_user = ''alice''\<rparr>"
    by (simp add: speaking_session_def)
  have c: "onSpeaking_throws closed_env (Notify (cb_user \<lparr>delay = 250, deadline = 1250, pending = True, cb_user = ''alice''\<rparr>) 4 0)"
    by (simp add: closed_env_def)
  from timeout_callback_notify_fails [OF t c] t c show ?thesis
    by (simp add: speaking_session_def session_def)
qed

text \<open>
  With a connection whose notifications throw, the entry of SSRC 4 is still in the map
  after the callback.
\<close>

theorem timeout_callback_counterexample:
  "fst (timeout_callback closed_env 4 speaking_session) = Inr ()
   \<and> speakingTimeouts (snd (timeout_callback closed_env 4 speaking_session)) 4
       = Some \<lparr>delay = 250, deadline = 1250, pending = False, cb_user = ''alice''\<rparr>
   \<and> speakingTimeouts (snd (timeout_callback closed_env 4 speaking_session)) 4 \<noteq> None"
  by (simp add: timeout_callback_def onSpeaking_def speaking_session_def session_def closed_env_def plain_env_def)

section \<open>What push does with a packet\<close>

lemma advance_ok:
  "\<not> onSpeaking_throws env (start_event env ssrc u) \<Longrightarrow>
   fst (advance_speaking env now ssrc u s) = Inr ()"
  by (cases "speaking u = 0")
    (simp_all add: advance_speaking_def onSpeaking_def start_event_def Let_def split: option.splits)

lemma push_packet:
  assumes "readUInt32BE b 8 = Inr ssrc" and "resolve s ssrc = Some u"
    and "fst (parseBuffer env b s) = Inr (Packet p)"
    and "hasVideo u \<longrightarrow> p \<noteq> SILENCE_FRAME env"
    and "\<not> onSpeaking_throws env (start_event env ssrc u)"
  shows "fst (push env now b s) = Inr ()
     \<and> error_events (snd (push env now b s)) = error_events s
     \<and> readable (snd (push env now b s))
         = readable (delivered (streams s (userId u)) (videoStreams s (userId u)) p s)
     \<and> ivf (snd (push env now b s))
         = ivf (delivered (streams s (userId u)) (videoStreams s (userId u)) p s)"
proof -
  obtain r n where pf: "parseBuffer env b s = (r, s\<lparr>nonce := n\<rparr>)"
    using parse_form by blast
  with assms(3) have ps: "parseBuffer env b s = (Inr (Packet p), s\<lparr>nonce := n\<rparr>)" by simp
  obtain r2 s2 where adv: "advance_speaking env now ssrc u s = (r2, s2)" by force
  with advance_ok [OF assms(5), of now s] have r2: "r2 = Inr ()" by simp
  note fr = advance_frame [OF adv]
  show ?thesis
  proof (cases "hasVideo u")
    case True
    with assms ps adv r2 fr show ?thesis
      by (simp add: push_video advance_nonce delivered_def split: option.splits)
  next
    case False
    from fr ps have "parseBuffer env b s2 = (Inr (Packet p), s2\<lparr>nonce := n\<rparr>)"
      using parse_depends [of s2 s env b] by simp
    with False assms adv r2 fr show ?thesis
      by (auto simp add: push_no_video delivered_def split: option.splits)
  qed
qed

lemma push_failure:
  assumes "readUInt32BE b 8 = Inr ssrc" and "resolve s ssrc = Some u"
    and "fst (parseBuffer env b s) = Inr (Failure err)"
    and "\<not> onSpeaking_throws env (start_event env ssrc u)"
  shows "error_events (snd (push env now b s))
           = (if streams s (userId u) = None \<and> videoStreams s (userId u) = None
              then error_events s else error_events s @ [err])
     \<and> readable (snd (push env now b s)) = readable s
     \<and> ivf (snd (push env now b s)) = ivf s"
proof -
  obtain r n where pf: "parseBuffer env b s = (r, s\<lparr>nonce := n\<rparr>)"
    using parse_form by blast
  with assms(3) have ps: "parseBuffer env b s = (Inr (Failure err), s\<lparr>nonce := n\<rparr>)" by simp
  obtain r2 s2 where adv: "advance_speaking env now ssrc u s = (r2, s2)" by force
  with advance_ok [OF assms(4), of now s] have r2: "r2 = Inr ()" by simp
  note fr = advance_frame [OF adv]
  show ?thesis
  proof (cases "hasVideo u")
    case True
    with assms ps show ?thesis
      by (simp add: push_video emit_error_def Let_def)
  next
    case False
    from fr ps have "parseBuffer env b s2 = (Inr (Failure err), s2\<lparr>nonce := n\<rparr>)"
      using parse_depends [of s2 s env b] by simp
    with False assms adv r2 fr show ?thesis
      by (simp add: push_no_video emit_error_def Let_def)
  qed
qed

lemma push_silence:
  assumes "readUInt32BE b 8 = Inr ssrc" and "resolve s ssrc = Some u" and "hasVideo u"
    and "fst (parseBuffer env b s) = Inr (Packet (SILENCE_FRAME env))"
  shows "push env now b s = (Inr (), s\<lparr>nonce := nonce (snd (parseBuffer env b s))\<rparr>)"
proof -
  obtain r n where pf: "parseBuffer env b s = (r, s\<lparr>nonce := n\<rparr>)"
    using parse_form by blast
  with assms show ?thesis by (simp add: push_video)
qed

section \<open>Failures of parseBuffer\<close>

lemma push_parse_throws:
  assumes "readUInt32BE b 8 = Inr ssrc" and "resolve s ssrc = Some u"
    and "fst (parseBuffer env b s) = Inl e"
    and "\<not> onSpeaking_throws env (start_event env ssrc u)"
  shows "error_events (snd (push env now b s)) = error_events s
     \<and> readable (snd (push env now b s)) = readable s
     \<and> ivf (snd (push env now b s)) = ivf s
     \<and> (hasVideo u \<or> streams s (userId u) \<noteq> None \<or> videoStreams s (userId u) \<noteq> None \<longrightarrow>
          fst (push env now b s) = Inl e)"
proof -
  obtain r n where pf: "parseBuffer env b s = (r, s\<lparr>nonce := n\<rparr>)"
    using parse_form by blast
  with assms(3) have ps: "parseBuffer env b s = (Inl e, s\<lparr>nonce := n\<rparr>)" by simp
  obtain r2 s2 where adv: "advance_speaking env now ssrc u s = (r2, s2)" by force
  with advance_ok [OF assms(4), of now s] have r2: "r2 = Inr ()" by simp
  note fr = advance_frame [OF adv]
  show ?thesis
  proof (cases "hasVideo u")
    case True
    with assms ps show ?thesis
      by (simp add: push_video)
  next
    case False
    from fr ps have "parseBuffer env b s2 = (Inl e, s2\<lparr>nonce := n\<rparr>)"
      using parse_depends [of s2 s env b] by simp
    with False assms adv r2 fr show ?thesis
      by (simp add: push_no_video)
  qed
qed

text \<open>
  C4, as the code has it. For a packet of a resolved user whose speaking-start
  notification is delivered. When \<open>parseBuffer\<close> returns an error (no key, or the
  box does not open and \<open>open\<close> returns nothing): with neither an audio nor a video
  stream of the user registered no error event is emitted, with one registered exactly
  one error event, this error, is emitted, and in both cases nothing is pushed to any
  stream. When \<open>parseBuffer\<close> throws instead: no error event is emitted and nothing
  is pushed to any stream, and where the packet is parsed at all, that is for a user in
  video or with a stream registered, the exception leaves \<open>push\<close>.
\<close>

theorem parse_failure_visibility:
  assumes "readUInt32BE b 8 = Inr ssrc" and "resolve s ssrc = Some u"
    and "\<not> onSpeaking_throws env (start_event env ssrc u)"
  shows "(fst (parseBuffer env b s) = Inr (Failure err) \<longrightarrow>
            (streams s (userId u) = None \<and> videoStreams s (userId u) = None \<longrightarrow>
               error_events (snd (push env now b s)) = error_events s)
          \<and> (streams s (userId u) \<noteq> None \<or> videoStreams s (userId u) \<noteq> None \<longrightarrow>
               error_events (snd (push env now b s)) = error_events s @ [err])
          \<and> readable (snd (push env now b s)) = readable s
          \<and> ivf (snd (push env now b s)) = ivf s)
     \<and> (fst (parseBuffer env b s) = Inl e \<longrightarrow>
            error_events (snd (push env now b s)) = error_events s
          \<and> readable (snd (push env now b s)) = readable s
          \<and> ivf (snd (push env now b s)) = ivf s
          \<and> (hasVideo u \<or> streams s (userId u) \<noteq> None \<or> videoStreams s (userId u) \<noteq> None \<longrightarrow>
               fst (push env now b s) = Inl e))"
proof (intro conjI)
  show "fst (parseBuffer env b s) = Inr (Failure err) \<longrightarrow>
            (streams s (userId u) = None \<and> videoStreams s (userId u) = None \<longrightarrow>
               error_events (snd (push env now b s)) = error_events s)
          \<and> (streams s (userId u) \<noteq> None \<or> videoStreams s (userId u) \<noteq> None \<longrightarrow>
               error_events (snd (push env now b s)) = error_events s @ [err])
          \<and> readable (snd (push env now b s)) = readable s
          \<and> ivf (snd (push env now b s)) = ivf s"
    using push_failure [OF assms(1,2) _ assms(3), of err now] by auto
  show "fst (parseBuffer env b s) = Inl e \<longrightarrow>
            error_events (snd (push env now b s)) = error_events s
          \<and> readable (snd (push env now b s)) = readable s
          \<and> ivf (snd (push env now b s)) = ivf s
          \<and> (hasVideo u \<or> streams s (userId u) \<noteq> None \<or> videoStreams s (userId u) \<noteq> None \<longrightarrow>
               fst (push env now b s) = Inl e)"
    using push_parse_throws [OF assms(1,2) _ assms(3), of e now] by blast
qed

lemma sealed_facts:
  "fst (parseBuffer sealed_env (datagram 4 p) session) = Inr (Failure ''Failed to decrypt voice packet'')"
  "fst (parseBuffer sealed_env (datagram 4 p) unattended_session)
     = Inr (Failure ''Failed to decrypt voice packet'')"
  "\<not> onSpeaking_throws sealed_env ev"
  "resolve session 4 = Some alice"
  "resolve unattended_session 4 = Some alice"
  by (simp_all add: parseBuffer_def choose_nonce_def buffer_copy_def sealed_env_def plain_env_def
      session_def unattended_session_def datagram_def resolve_def)

lemma throw_facts:
  "fst (parseBuffer plain_env (datagram 4 [0xBE, 0xDE, 0]) session) = Inl RangeError"
  "fst (parseBuffer throwing_env (datagram 4 [1, 2, 3]) session) = Inl SecretboxError"
  "\<not> onSpeaking_throws throwing_env ev"
  by (simp_all add: parseBuffer_def choose_nonce_def buffer_copy_def plain_env_def throwing_env_def
      session_def datagram_def buffer_slice_def clamp_index_def strip_extension_def has_marker_def
      byte_at_def readUInt16BE_def)

theorem parse_failure_visibility_witness:
  "readUInt32BE (datagram 4 [1, 2, 3]) 8 = Inr 4
   \<and> resolve session 4 = Some alice
   \<and> fst (parseBuffer sealed_env (datagram 4 [1, 2, 3]) session)
       = Inr (Failure ''Failed to decrypt voice packet'')
   \<and> \<not> onSpeaking_throws sealed_env (start_event sealed_env 4 alice)
   \<and> streams session (userId alice) = Some \<lparr>stream = 0, end_policy = ''silence''\<rparr>
   \<and> error_events (snd (push sealed_env 1000 (datagram 4 [1, 2, 3]) session))
       = [''Failed to decrypt voice packet'']
   \<and> readable (snd (push sealed_env 1000 (datagram 4 [1, 2, 3]) session)) 0 = []
   \<and> streams unattended_session (userId alice) = None
   \<and> videoStreams unattended_session (userId alice) = None
   \<and> error_events (snd (push sealed_env 1000 (datagram 4 [1, 2, 3]) unattended_session))
       = []
   \<and> fst (parseBuffer plain_env (datagram 4 [0xBE, 0xDE, 0]) session) = Inl RangeError
   \<and> error_events (snd (push plain_env 1000 (datagram 4 [0xBE, 0xDE, 0]) session)) = []
   \<and> readable (snd (push plain_env 1000 (datagram 4 [0xBE, 0xDE, 0]) session)) 0 = []
   \<and> fst (push plain_env 1000 (datagram 4 [0xBE, 0xDE, 0]) session) = Inl RangeError"
proof -
  have reg: "streams session (userId alice) = Some \<lparr>stream = 0, end_policy = ''silence''\<rparr>"
    "streams unattended_session (userId alice) = None"
    "videoStreams unattended_session (userId alice) = None"
    "error_events session = []" "readable session 0 = []"
    "error_events unattended_session = []"
    by (simp_all add: session_def unattended_session_def alice_def)
  from parse_failure_visibility [OF session_facts(1) [of "[1, 2, 3]"] sealed_facts(4)
      sealed_facts(3), where now = 1000 and err = "''Failed to decrypt voice packet''",
      THEN conjunct1]
  have listened: "error_events (snd (push sealed_env 1000 (datagram 4 [1, 2, 3]) session))
       = [''Failed to decrypt voice packet'']
     \<and> readable (snd (push sealed_env 1000 (datagram 4 [1, 2, 3]) session)) 0 = []"
    by (simp add: reg sealed_facts)
  from parse_failure_visibility [OF session_facts(1) [of "[1, 2, 3]"] sealed_facts(5)
      sealed_facts(3), where now = 1000 and err = "''Failed to decrypt voice packet''",
      THEN conjunct1]
  have unattended: "error_events (snd (push sealed_env 1000 (datagram 4 [1, 2, 3])
      unattended_session)) = []"
    by (simp add: reg sealed_facts)
  from parse_failure_visibility [OF session_facts(1) [of "[0xBE, 0xDE, 0]"] sealed_facts(4)
      session_facts(8), where now = 1000 and e = RangeError, THEN conjunct2]
  have thrown: "error_events (snd (push plain_env 1000 (datagram 4 [0xBE, 0xDE, 0]) session)) = []
     \<and> readable (snd (push plain_env 1000 (datagram 4 [0xBE, 0xDE, 0]) session)) 0 = []
     \<and> fst (push plain_env 1000 (datagram 4 [0xBE, 0xDE, 0]) session) = Inl RangeError"
    by (simp add: reg throw_facts)
  from listened unattended thrown reg show ?thesis
    by (simp add: session_facts sealed_facts throw_facts)
qed

text \<open>
  With the audio stream of the user registered, a plaintext of the marker and one more
  byte makes \<open>parseBuffer\<close> throw, and so does a cipher whose \<open>open\<close> throws: no
  error event is emitted for either packet.
\<close>

theorem parse_throw_counterexample:
  "streams session ''alice'' = Some \<lparr>stream = 0, end_policy = ''silence''\<rparr>
   \<and> resolve session 4 = Some alice
   \<and> fst (parseBuffer plain_env (datagram 4 [0xBE, 0xDE, 0]) session) = Inl RangeError
   \<and> fst (push plain_env 1000 (datagram 4 [0xBE, 0xDE, 0]) session) = Inl RangeError
   \<and> error_events (snd (push plain_env 1000 (datagram 4 [0xBE, 0xDE, 0]) session)) = []
   \<and> fst (parseBuffer throwing_env (datagram 4 [1, 2, 3]) session) = Inl SecretboxError
   \<and> fst (push throwing_env 1000 (datagram 4 [1, 2, 3]) session) = Inl SecretboxError
   \<and> error_events (snd (push throwing_env 1000 (datagram 4 [1, 2, 3]) session)) = []"
  by (simp add: run_push throwing_env_def)

section \<open>Silence frames\<close>

text \<open>
  C9. For a packet of a user in video that parses to a payload: when the payload is the
  silence frame, \<open>push\<close> returns with nothing pushed to any stream, no timeout
  touched, nothing notified and no error emitted; when it is any other payload, of the
  same length or not, and the speaking-start notification is delivered, the payload is
  pushed to the user's registered audio stream and to the registered video stream.
\<close>

theorem silence_frame_dropped:
  assumes "readUInt32BE b 8 = Inr ssrc" and "resolve s ssrc = Some u" and "hasVideo u"
    and "fst (parseBuffer env b s) = Inr (Packet p)"
  shows "(p = SILENCE_FRAME env \<longrightarrow>
            fst (push env now b s) = Inr ()
          \<and> readable (snd (push env now b s)) = readable s
          \<and> ivf (snd (push env now b s)) = ivf s
          \<and> speakingTimeouts (snd (push env now b s)) = speakingTimeouts s
          \<and> notified (snd (push env now b s)) = notified s
          \<and> error_events (snd (push env now b s)) = error_events s)
     \<and> (p \<noteq> SILENCE_FRAME env \<and> \<not> onSpeaking_throws env (start_event env ssrc u) \<longrightarrow>
            fst (push env now b s) = Inr ()
          \<and> (\<forall>info. streams s (userId u) = Some info \<longrightarrow>
                readable (snd (push env now b s)) (stream info)
                  = readable s (stream info) @ [Some p])
          \<and> (\<forall>h. videoStreams s (userId u) = Some h \<longrightarrow>
                ivf (snd (push env now b s)) h = ivf s h @ [p]))"
proof (intro conjI impI allI)
  assume "p = SILENCE_FRAME env"
  with assms push_silence [of b ssrc s u env now]
  have "push env now b s = (Inr (), s\<lparr>nonce := nonce (snd (parseBuffer env b s))\<rparr>)"
    by simp
  then show "fst (push env now b s) = Inr ()"
    and "readable (snd (push env now b s)) = readable s"
    and "ivf (snd (push env now b s)) = ivf s"
    and "speakingTimeouts (snd (push env now b s)) = speakingTimeouts s"
    and "notified (snd (push env now b s)) = notified s"
    and "error_events (snd (push env now b s)) = error_events s"
    by simp_all
next
  assume h: "p \<noteq> SILENCE_FRAME env \<and> \<not> onSpeaking_throws env (start_event env ssrc u)"
  with assms push_packet [of b ssrc s u env p now]
  have pk: "fst (push env now b s) = Inr ()
     \<and> readable (snd (push env now b s))
         = readable (delivered (streams s (userId u)) (videoStreams s (userId u)) p s)
     \<and> ivf (snd (push env now b s))
         = ivf (delivered (streams s (userId u)) (videoStreams s (userId u)) p s)"
    by simp
  then show "fst (push env now b s) = Inr ()" by simp
  { fix info
    assume "streams s (userId u) = Some info"
    with pk show "readable (snd (push env now b s)) (stream info)
        = readable s (stream info) @ [Some p]"
      by (simp add: delivered_def) }
  { fix h
    assume "videoStreams s (userId u) = Some h"
    with pk show "ivf (snd (push env now b s)) h = ivf s h @ [p]"
      by (simp add: delivered_def) }
qed

lemma video_facts:
  "resolve video_session 4 = Some (alice\<lparr>hasVideo := True\<rparr>)"
  "hasVideo (alice\<lparr>hasVideo := True\<rparr>)"
  "userId (alice\<lparr>hasVideo := True\<rparr>) = ''alice''"
  "fst (parseBuffer plain_env (datagram 4 [0xF8, 0xFF, c]) video_session)
     = Inr (Packet [0xF8, 0xFF, c])"
  "SILENCE_FRAME plain_env = [0xF8, 0xFF, 0xFE]"
  "streams video_session ''alice'' = Some \<lparr>stream = 0, end_policy = ''silence''\<rparr>"
  "videoStreams video_session ''alice'' = Some 7"
  "readable video_session = (\<lambda>h. [])" "ivf video_session = (\<lambda>h. [])"
  "speakingTimeouts video_session = Map.empty" "notified video_session = []"
  by (simp_all add: parseBuffer_def choose_nonce_def buffer_copy_def plain_env_def
      video_session_def session_def datagram_def resolve_def alice_def buffer_slice_def
      clamp_index_def strip_extension_def has_marker_def byte_at_def)

theorem silence_frame_dropped_witness:
  "readUInt32BE (datagram 4 [0xF8, 0xFF, 0xFE]) 8 = Inr 4
   \<and> resolve video_session 4 = Some (alice\<lparr>hasVideo := True\<rparr>)
   \<and> hasVideo (alice\<lparr>hasVideo := True\<rparr>)
   \<and> fst (parseBuffer plain_env (datagram 4 [0xF8, 0xFF, 0xFE]) video_session)
       = Inr (Packet (SILENCE_FRAME plain_env))
   \<and> readable (snd (push plain_env 1000 (datagram 4 [0xF8, 0xFF, 0xFE]) video_session)) 0 = []
   \<and> ivf (snd (push plain_env 1000 (datagram 4 [0xF8, 0xFF, 0xFE]) video_session)) 7 = []
   \<and> speakingTimeouts (snd (push plain_env 1000 (datagram 4 [0xF8, 0xFF, 0xFE]) video_session)) 4 = None
   \<and> notified (snd (push plain_env 1000 (datagram 4 [0xF8, 0xFF, 0xFE]) video_session)) = []
   \<and> fst (parseBuffer plain_env (datagram 4 [0xF8, 0xFF, 0xFD]) video_session)
       = Inr (Packet [0xF8, 0xFF, 0xFD])
   \<and> [0xF8, 0xFF, 0xFD] \<noteq> SILENCE_FRAME plain_env
   \<and> readable (snd (push plain_env 1000 (datagram 4 [0xF8, 0xFF, 0xFD]) video_session)) 0
       = [Some [0xF8, 0xFF, 0xFD]]
   \<and> ivf (snd (push plain_env 1000 (datagram 4 [0xF8, 0xFF, 0xFD]) video_session)) 7
       = [[0xF8, 0xFF, 0xFD]]"
proof -
  note silent = silence_frame_dropped [OF session_facts(1) [of "[0xF8, 0xFF, 0xFE]"]
      video_facts(1) video_facts(2) video_facts(4) [of "0xFE"],
      where now = 1000, THEN conjunct1]
  then have dropped:
    "readable (snd (push plain_env 1000 (datagram 4 [0xF8, 0xFF, 0xFE]) video_session)) 0 = []
     \<and> ivf (snd (push plain_env 1000 (datagram 4 [0xF8, 0xFF, 0xFE]) video_session)) 7 = []
     \<and> speakingTimeouts (snd (push plain_env 1000 (datagram 4 [0xF8, 0xFF, 0xFE]) video_session)) 4 = None
     \<and> notified (snd (push plain_env 1000 (datagram 4 [0xF8, 0xFF, 0xFE]) video_session)) = []"
    by (simp add: video_facts)
  note loud = silence_frame_dropped [OF session_facts(1) [of "[0xF8, 0xFF, 0xFD]"]
      video_facts(1) video_facts(2) video_facts(4) [of "0xFD"],
      where now = 1000, THEN conjunct2]
  then have passed:
    "readable (snd (push plain_env 1000 (datagram 4 [0xF8, 0xFF, 0xFD]) video_session)) 0
       = [Some [0xF8, 0xFF, 0xFD]]
     \<and> ivf (snd (push plain_env 1000 (datagram 4 [0xF8, 0xFF, 0xFD]) video_session)) 7
       = [[0xF8, 0xFF, 0xFD]]"
    by (simp add: video_facts session_facts)
  from dropped passed show ?thesis
    by (simp add: video_facts session_facts)
qed

section \<open>Extensions longer than the plaintext\<close>

lemma parse_plaintext:
  assumes "choose_nonce (mode (auth s)) (nonce s) b = Inr (n, e)"
    and "secret_key (auth s) = Some key"
    and "secretbox_open env (buffer_slice b 12 e) n key = Inr (Some plain)"
  shows "fst (parseBuffer env b s)
           = (case strip_extension plain of Inl x \<Rightarrow> Inl x | Inr p \<Rightarrow> Inr (Packet p))"
  using assms by (simp add: parseBuffer_def Let_def split: sum.splits)

text \<open>
  C8, as the code has it. When the plaintext of a packet starts with the marker, has the
  four bytes of the extension header, and its length field reaches to the end of the
  plaintext or past it, the stripper leaves the empty payload and \<open>parseBuffer\<close>
  returns it as a packet, not as an error: with the speaking-start notification
  delivered (and, for a user in video, a silence frame that is not empty), \<open>push\<close>
  returns, emits no error, and pushes the empty payload to each registered stream of the
  user.
\<close>

theorem overlong_extension_delivered_empty:
  assumes "readUInt32BE b 8 = Inr ssrc" and "resolve s ssrc = Some u"
    and "choose_nonce (mode (auth s)) (nonce s) b = Inr (n, e)"
    and "secret_key (auth s) = Some key"
    and "secretbox_open env (buffer_slice b 12 e) n key = Inr (Some plain)"
    and "has_marker plain" and "4 \<le> length plain"
    and "length plain \<le> 4 + 4 * (unat (plain ! 2) * 256 + unat (plain ! 3))"
    and "hasVideo u \<longrightarrow> SILENCE_FRAME env \<noteq> []"
    and "\<not> onSpeaking_throws env (start_event env ssrc u)"
  shows "fst (parseBuffer env b s) = Inr (Packet [])
     \<and> fst (push env now b s) = Inr ()
     \<and> error_events (snd (push env now b s)) = error_events s
     \<and> (\<forall>info. streams s (userId u) = Some info \<longrightarrow>
           readable (snd (push env now b s)) (stream info) = readable s (stream info) @ [Some []])
     \<and> (\<forall>h. videoStreams s (userId u) = Some h \<longrightarrow>
           ivf (snd (push env now b s)) h = ivf s h @ [[]])"
proof -
  from assms(6,7,8) have "strip_extension plain = Inr []"
    by (simp add: strip_extension_marker)
  with parse_plaintext [OF assms(3,4,5)]
  have parsed: "fst (parseBuffer env b s) = Inr (Packet [])" by simp
  from assms(9) have "hasVideo u \<longrightarrow> [] \<noteq> SILENCE_FRAME env" by auto
  from push_packet [OF assms(1,2) parsed this assms(10), of now] parsed
  show ?thesis by (auto simp: delivered_def)
qed

lemma overlong_facts:
  "choose_nonce (mode (auth session)) (nonce session) (datagram 4 [0xBE, 0xDE, 0, 5, 1, 2])
     = Inr ([0x80, 0x78, 0, 1, 0, 0, 0, 2, 0, 0, 0, 4] @ replicate 12 0, None)"
  "secret_key (auth session) = Some []"
  "secretbox_open plain_env (buffer_slice (datagram 4 [0xBE, 0xDE, 0, 5, 1, 2]) 12 None) n k
     = Inr (Some [0xBE, 0xDE, 0, 5, 1, 2])"
  "has_marker [0xBE, 0xDE, 0, 5, 1, 2]"
  "hasVideo alice \<longrightarrow> SILENCE_FRAME plain_env \<noteq> []"
  "streams session (userId alice) = Some \<lparr>stream = 0, end_policy = ''silence''\<rparr>"
  "readable session 0 = []" "error_events session = []"
  by (simp_all add: choose_nonce_def buffer_copy_def session_def datagram_def plain_env_def
      buffer_slice_def clamp_index_def has_marker_def byte_at_def alice_def)

theorem overlong_extension_delivered_empty_witness:
  "readUInt32BE (datagram 4 [0xBE, 0xDE, 0, 5, 1, 2]) 8 = Inr 4
   \<and> resolve session 4 = Some alice
   \<and> has_marker [0xBE, 0xDE, 0, 5, 1, 2]
   \<and> length [0xBE, 0xDE, 0, 5, 1, 2 :: byte] \<le> 4 + 4 * (0 * 256 + 5)
   \<and> fst (parseBuffer plain_env (datagram 4 [0xBE, 0xDE, 0, 5, 1, 2]) session) = Inr (Packet [])
   \<and> fst (push plain_env 1000 (datagram 4 [0xBE, 0xDE, 0, 5, 1, 2]) session) = Inr ()
   \<and> error_events (snd (push plain_env 1000 (datagram 4 [0xBE, 0xDE, 0, 5, 1, 2]) session)) = []
   \<and> readable (snd (push plain_env 1000 (datagram 4 [0xBE, 0xDE, 0, 5, 1, 2]) session)) 0
       = [Some []]"
proof -
  have len: "4 \<le> length [0xBE, 0xDE, 0, 5, 1, 2 :: byte]"
    and over: "length [0xBE, 0xDE, 0, 5, 1, 2 :: byte]
      \<le> 4 + 4 * (unat ([0xBE, 0xDE, 0, 5, 1, 2 :: byte] ! 2) * 256
                   + unat ([0xBE, 0xDE, 0, 5, 1, 2 :: byte] ! 3))"
    by simp_all
  from overlong_extension_delivered_empty [OF session_facts(1) sealed_facts(4) overlong_facts(1)
      overlong_facts(2) overlong_facts(3) overlong_facts(4) len over overlong_facts(5)
      session_facts(8), where now = 1000]
  show ?thesis
    by (simp add: overlong_facts session_facts sealed_facts)
qed

text \<open>
  An extension of five words on a plaintext of six bytes: the audio stream receives an
  empty payload and no error is emitted.
\<close>

theorem overlong_extension_counterexample:
  "strip_extension [0xBE, 0xDE, 0, 5, 1, 2] = Inr []
   \<and> fst (push plain_env 1000 (datagram 4 [0xBE, 0xDE, 0, 5, 1, 2]) session) = Inr ()
   \<and> readable (snd (push plain_env 1000 (datagram 4 [0xBE, 0xDE, 0, 5, 1, 2]) session)) 0
       = [Some []]
   \<and> error_events (snd (push plain_env 1000 (datagram 4 [0xBE, 0xDE, 0, 5, 1, 2]) session)) = []"
  by (simp add: run_push)

section \<open>When push returns\<close>

lemma choose_nonce_returns:
  assumes "m = Some ''xsalsa20_poly1305_lite'' \<longrightarrow> 4 \<le> length b"
    and "m = Some ''xsalsa20_poly1305_suffix'' \<longrightarrow> 24 \<le> length b"
  shows "\<exists>n e. choose_nonce m scratch b = Inr (n, e)"
  using assms by (auto simp: choose_nonce_def buffer_copy_def Let_def)

lemma parse_returns:
  assumes "mode (auth s) = Some ''xsalsa20_poly1305_lite'' \<longrightarrow> 4 \<le> length b"
    and "mode (auth s) = Some ''xsalsa20_poly1305_suffix'' \<longrightarrow> 24 \<le> length b"
    and "\<forall>n e key x. choose_nonce (mode (auth s)) (nonce s) b = Inr (n, e)
           \<and> secret_key (auth s) = Some key
           \<longrightarrow> secretbox_open env (buffer_slice b 12 e) n key \<noteq> Inl x"
    and "\<forall>n e key p. choose_nonce (mode (auth s)) (nonce s) b = Inr (n, e)
           \<and> secret_key (auth s) = Some key
           \<and> secretbox_open env (buffer_slice b 12 e) n key = Inr (Some p) \<and> has_marker p
           \<longrightarrow> 4 \<le> length p"
  shows "\<exists>r. fst (parseBuffer env b s) = Inr r"
proof -
  from choose_nonce_returns [OF assms(1,2)]
  obtain n e where c: "choose_nonce (mode (auth s)) (nonce s) b = Inr (n, e)" by blast
  show ?thesis
  proof (cases "secret_key (auth s)")
    case None
    with c show ?thesis by (simp add: parseBuffer_def)
  next
    case (Some key)
    note key = this
    from assms(3) c key have "\<forall>x. secretbox_open env (buffer_slice b 12 e) n key \<noteq> Inl x"
      by blast
    then obtain r where r: "secretbox_open env (buffer_slice b 12 e) n key = Inr r"
      by (cases "secretbox_open env (buffer_slice b 12 e) n key") auto
    show ?thesis
    proof (cases r)
      case None
      with c key r show ?thesis by (simp add: parseBuffer_def)
    next
      case (Some p)
      with r have op: "secretbox_open env (buffer_slice b 12 e) n key = Inr (Some p)" by simp
      have "\<exists>q. strip_extension p = Inr q"
      proof (cases "has_marker p")
        case True
        with assms(4) c key op have "4 \<le> length p" by blast
        with True show ?thesis by (simp add: strip_extension_marker)
      next
        case False
        then show ?thesis by (simp add: strip_extension_no_marker)
      qed
      with parse_plaintext [OF c key op] show ?thesis by auto
    qed
  qed
qed

lemma push_failure_returns:
  assumes "readUInt32BE b 8 = Inr ssrc" and "resolve s ssrc = Some u"
    and "fst (parseBuffer env b s) = Inr (Failure err)"
    and "\<not> onSpeaking_throws env (start_event env ssrc u)"
    and "error_listener s"
  shows "fst (push env now b s) = Inr ()"
proof -
  obtain r n where pf: "parseBuffer env b s = (r, s\<lparr>nonce := n\<rparr>)"
    using parse_form by blast
  with assms(3) have ps: "parseBuffer env b s = (Inr (Failure err), s\<lparr>nonce := n\<rparr>)" by simp
  obtain r2 s2 where adv: "advance_speaking env now ssrc u s = (r2, s2)" by force
  with advance_ok [OF assms(4), of now s] have r2: "r2 = Inr ()" by simp
  note fr = advance_frame [OF adv]
  show ?thesis
  proof (cases "hasVideo u")
    case True
    with assms ps show ?thesis
      by (simp add: push_video emit_error_def Let_def)
  next
    case False
    from fr ps have "parseBuffer env b s2 = (Inr (Failure err), s2\<lparr>nonce := n\<rparr>)"
      using parse_depends [of s2 s env b] by simp
    with False assms adv r2 fr show ?thesis
      by (simp add: push_no_video emit_error_def Let_def)
  qed
qed

lemma push_returns_if:
  assumes "12 \<le> length b"
    and "mode (auth s) = Some ''xsalsa20_poly1305_suffix'' \<longrightarrow> 24 \<le> length b"
    and "\<forall>n e key x. choose_nonce (mode (auth s)) (nonce s) b = Inr (n, e)
           \<and> secret_key (auth s) = Some key
           \<longrightarrow> secretbox_open env (buffer_slice b 12 e) n key \<noteq> Inl x"
    and "\<forall>n e key p. choose_nonce (mode (auth s)) (nonce s) b = Inr (n, e)
           \<and> secret_key (auth s) = Some key
           \<and> secretbox_open env (buffer_slice b 12 e) n key = Inr (Some p) \<and> has_marker p
           \<longrightarrow> 4 \<le> length p"
    and "\<forall>ev. \<not> onSpeaking_throws env ev"
    and "error_listener s"
  shows "fst (push env now b s) = Inr ()"
proof -
  from assms(1) obtain ssrc where rd: "readUInt32BE b 8 = Inr ssrc"
    by (simp add: readUInt32BE_def)
  show ?thesis
  proof (cases "resolve s ssrc")
    case None
    with rd show ?thesis by (simp add: push_def)
  next
    case (Some u)
    from assms(5) have quiet: "\<not> onSpeaking_throws env (start_event env ssrc u)" by simp
    from assms(1) have "mode (auth s) = Some ''xsalsa20_poly1305_lite'' \<longrightarrow> 4 \<le> length b"
      by simp
    from parse_returns [OF this assms(2,3,4)]
    obtain r where r: "fst (parseBuffer env b s) = Inr r" by blast
    show ?thesis
    proof (cases r)
      case (Failure err)
      with r push_failure_returns [OF rd Some _ quiet assms(6), of err now]
      show ?thesis by simp
    next
      case (Packet p)
      show ?thesis
      proof (cases "hasVideo u \<and> p = SILENCE_FRAME env")
        case True
        with r Packet push_silence [OF rd Some, of env now] show ?thesis by simp
      next
        case False
        with r Packet push_packet [OF rd Some _ _ quiet, of p now] show ?thesis by auto
      qed
    qed
  qed
qed

text \<open>
  C6, as the code has it. \<open>push\<close> returns without throwing on every datagram of at
  least 12 bytes, and at least 24 in suffix mode, provided that \<open>open\<close> returns on
  the box of the packet rather than throws, that the plaintext, if the box opens and the
  plaintext starts with the extension marker, has the four bytes of the extension
  header, that the notifications of the connection do not throw, and that a listener for
  \<open>'error'\<close> is attached. On a datagram of fewer than 12 bytes \<open>push\<close> throws a
  \<open>RangeError\<close> and leaves the handler as it was.
\<close>

theorem push_returns:
  "(12 \<le> length b
      \<and> (mode (auth s) = Some ''xsalsa20_poly1305_suffix'' \<longrightarrow> 24 \<le> length b)
      \<and> (\<forall>n e key x. choose_nonce (mode (auth s)) (nonce s) b = Inr (n, e)
            \<and> secret_key (auth s) = Some key
            \<longrightarrow> secretbox_open env (buffer_slice b 12 e) n key \<noteq> Inl x)
      \<and> (\<forall>n e key p. choose_nonce (mode (auth s)) (nonce s) b = Inr (n, e)
            \<and> secret_key (auth s) = Some key
            \<and> secretbox_open env (buffer_slice b 12 e) n key = Inr (Some p) \<and> has_marker p
            \<longrightarrow> 4 \<le> length p)
      \<and> (\<forall>ev. \<not> onSpeaking_throws env ev)
      \<and> error_listener s
    \<longrightarrow> fst (push env now b s) = Inr ())
   \<and> (length b < 12 \<longrightarrow> push env now b s = (Inl RangeError, s))"
proof (intro conjI impI)
  assume "12 \<le> length b
      \<and> (mode (auth s) = Some ''xsalsa20_poly1305_suffix'' \<longrightarrow> 24 \<le> length b)
      \<and> (\<forall>n e key x. choose_nonce (mode (auth s)) (nonce s) b = Inr (n, e)
            \<and> secret_key (auth s) = Some key
            \<longrightarrow> secretbox_open env (buffer_slice b 12 e) n key \<noteq> Inl x)
      \<and> (\<forall>n e key p. choose_nonce (mode (auth s)) (nonce s) b = Inr (n, e)
            \<and> secret_key (auth s) = Some key
            \<and> secretbox_open env (buffer_slice b 12 e) n key = Inr (Some p) \<and> has_marker p
            \<longrightarrow> 4 \<le> length p)
      \<and> (\<forall>ev. \<not> onSpeaking_throws env ev)
      \<and> error_listener s"
  then show "fst (push env now b s) = Inr ()"
    using push_returns_if [of b s env now] by blast
next
  assume "length b < 12"
  then show "push env now b s = (Inl RangeError, s)"
    by (simp add: push_def readUInt32BE_def)
qed

theorem push_returns_witness:
  "12 \<le> length (datagram 4 [1, 2, 3])
   \<and> mode (auth session) \<noteq> Some ''xsalsa20_poly1305_suffix''
   \<and> secretbox_open plain_env [1, 2, 3] (nonce session) [] = Inr (Some [1, 2, 3])
   \<and> \<not> has_marker [1, 2, 3]
   \<and> error_listener session
   \<and> fst (push plain_env 1000 (datagram 4 [1, 2, 3]) session) = Inr ()
   \<and> length [1, 2, 3 :: byte] < 12
   \<and> push plain_env 1000 [1, 2, 3] session = (Inl RangeError, session)"
proof -
  have len: "12 \<le> length (datagram 4 [1, 2, 3])"
    and m: "mode (auth session) = Some ''xsalsa20_poly1305_suffix''
       \<longrightarrow> 24 \<le> length (datagram 4 [1, 2, 3])"
    and m': "mode (auth session) \<noteq> Some ''xsalsa20_poly1305_suffix''"
    and l: "error_listener session"
    and q: "\<forall>ev. \<not> onSpeaking_throws plain_env ev"
    and nm: "\<not> has_marker [1, 2, 3]"
    and op: "secretbox_open plain_env [1, 2, 3] (nonce session) [] = Inr (Some [1, 2, 3])"
    and short: "length [1, 2, 3 :: byte] < 12"
    by (simp_all add: datagram_def session_def plain_env_def has_marker_def byte_at_def)
  have t: "\<forall>n e key x. choose_nonce (mode (auth session)) (nonce session) (datagram 4 [1, 2, 3]) = Inr (n, e)
           \<and> secret_key (auth session) = Some key
           \<longrightarrow> secretbox_open plain_env (buffer_slice (datagram 4 [1, 2, 3]) 12 e) n key \<noteq> Inl x"
    by (simp add: plain_env_def)
  have p: "\<forall>n e key p. choose_nonce (mode (auth session)) (nonce session) (datagram 4 [1, 2, 3]) = Inr (n, e)
           \<and> secret_key (auth session) = Some key
           \<and> secretbox_open plain_env (buffer_slice (datagram 4 [1, 2, 3]) 12 e) n key = Inr (Some p)
           \<and> has_marker p
           \<longrightarrow> 4 \<le> length p"
    by (auto simp add: choose_nonce_def buffer_copy_def session_def datagram_def plain_env_def
        buffer_slice_def clamp_index_def has_marker_def byte_at_def)
  from push_returns [where b = "datagram 4 [1, 2, 3]" and s = session and env = plain_env
      and now = 1000, THEN conjunct1] len m t p q l
  have ok: "fst (push plain_env 1000 (datagram 4 [1, 2, 3]) session) = Inr ()" by blast
  from push_returns [where b = "[1, 2, 3]" and s = session and env = plain_env
      and now = 1000, THEN conjunct2] short
  have bad: "push plain_env 1000 [1, 2, 3] session = (Inl RangeError, session)" by blast
  from len m' op nm l ok short bad show ?thesis by simp
qed

text \<open>
  \<open>push\<close> throws on a datagram of three bytes, on a packet whose plaintext is the
  marker and one more byte, in suffix mode on a datagram of fifteen bytes, and with a
  cipher whose \<open>open\<close> throws.
\<close>

theorem push_throws_counterexample:
  "fst (push plain_env 1000 [1, 2, 3] session) = Inl RangeError
   \<and> fst (push plain_env 1000 (datagram 4 [0xBE, 0xDE, 0]) session) = Inl RangeError
   \<and> fst (push plain_env 1000 (datagram 4 [1, 2, 3])
        (session\<lparr>auth := \<lparr>secret_key = Some [], mode = Some ''xsalsa20_poly1305_suffix''\<rparr>\<rparr>))
       = Inl RangeError
   \<and> fst (push throwing_env 1000 (datagram 4 [1, 2, 3]) session) = Inl SecretboxError"
  by (simp add: run_push throwing_env_def)

end
